theory Spec2Isabelle
  imports Complex_Main "HOL-Library.Sublist"
begin

section \<open>Python strings\<close>

text \<open>
  Python \<open>str\<close> values are modelled as \<open>string\<close>.  The model is exact for ASCII text:
  the character classes below are the ASCII members of Python's \<open>str.isspace\<close>, of the
  regular-expression classes \<open>\s\<close>, \<open>\d\<close> and \<open>\w\<close>, and of the letters changed by
  \<open>str.lower\<close>.  Characters above 127 are kept as they are and belong to none of the
  classes.
\<close>

definition is_space :: "char \<Rightarrow> bool" where
  "is_space c = (c \<in> set [CHR 0x09, CHR 0x0A, CHR 0x0B, CHR 0x0C, CHR 0x0D,
                            CHR 0x1C, CHR 0x1D, CHR 0x1E, CHR 0x1F, CHR '' ''])"

definition is_digit :: "char \<Rightarrow> bool" where
  "is_digit c = (c \<in> set ''0123456789'')"

definition upper_letters :: string where
  "upper_letters = ''ABCDEFGHIJKLMNOPQRSTUVWXYZ''"

definition lower_letters :: string where
  "lower_letters = ''abcdefghijklmnopqrstuvwxyz''"

definition is_word :: "char \<Rightarrow> bool" where
  "is_word c = (c \<in> set upper_letters \<or> c \<in> set lower_letters \<or> is_digit c \<or> c = CHR ''_'')"

definition lower_char :: "char \<Rightarrow> char" where
  "lower_char c = (case map_of (zip upper_letters lower_letters) c of Some d \<Rightarrow> d | None \<Rightarrow> c)"

text \<open>\<open>s.lower()\<close>\<close>

definition lower :: "string \<Rightarrow> string" where
  "lower s = map lower_char s"

text \<open>\<open>s.strip()\<close>\<close>

definition strip :: "string \<Rightarrow> string" where
  "strip s = rev (dropWhile is_space (rev (dropWhile is_space s)))"

text \<open>\<open>s.endswith(suf)\<close> and \<open>sub in s\<close>\<close>

definition endswith :: "string \<Rightarrow> string \<Rightarrow> bool" where
  "endswith s suf = suffix suf s"

fun contains :: "string \<Rightarrow> string \<Rightarrow> bool" where
  "contains sub [] = (sub = [])"
| "contains sub (c # cs) = (prefix sub (c # cs) \<or> contains sub cs)"

text \<open>
  \<open>s.replace(old, new)\<close> for a non-empty \<open>old\<close> (every call in the source passes a
  non-empty literal): occurrences are replaced from left to right, without overlap.
\<close>

function replace :: "string \<Rightarrow> string \<Rightarrow> string \<Rightarrow> string" where
  "replace old new [] = []"
| "replace old new (c # cs) =
     (if old \<noteq> [] \<and> prefix old (c # cs)
      then new @ replace old new (drop (length old) (c # cs))
      else c # replace old new cs)"
  by pat_completeness auto
termination
  by (relation "measure (\<lambda>(old, new, s). length s)") auto

section \<open>Identity assigner\<close>

text \<open>
  \<^verbatim>\<open>
  def generate_paddle_id(brand: str, model: str) -> str:
      brand = brand.lower().replace(" ", "-")
      model = model.lower().replace(" ", "-")
      return f"{brand}-{model}"
  \<close>
\<close>

definition generate_paddle_id :: "string \<Rightarrow> string \<Rightarrow> string" where
  "generate_paddle_id brand model =
     (let brand = replace '' '' ''-'' (lower brand);
          model = replace '' '' ''-'' (lower model)
      in brand @ ''-'' @ model)"

section \<open>Python floats\<close>

text \<open>
  A Python \<open>float\<close> is modelled by the rational number it denotes: rounding to binary
  floating point, overflow and the special values \<open>inf\<close> and \<open>nan\<close> are not part of the
  model.  \<open>py_float\<close> is the constructor \<open>float(s)\<close> on decimal literals: surrounding
  whitespace, an optional sign, digits with an optional point, an optional exponent.
  \<open>None\<close> stands for \<open>ValueError\<close>.
\<close>

definition digit_val :: "char \<Rightarrow> nat" where
  "digit_val c =
     (case map_of (zip ''0123456789'' [0, 1, 2, 3, 4, 5, 6, 7, 8, 9]) c of
        Some d \<Rightarrow> d | None \<Rightarrow> 0)"

definition digits_val :: "string \<Rightarrow> nat" where
  "digits_val ds = foldl (\<lambda>n c. 10 * n + digit_val c) 0 ds"

definition parse_exponent :: "string \<Rightarrow> int option" where
  "parse_exponent s =
     (let (neg, ds) = (case s of
                         c # t \<Rightarrow> if c = CHR ''-'' then (True, t)
                                  else if c = CHR ''+'' then (False, t) else (False, s)
                       | [] \<Rightarrow> (False, s))
      in if ds \<noteq> [] \<and> list_all is_digit ds
         then Some (if neg then - int (digits_val ds) else int (digits_val ds))
         else None)"

definition scale10 :: "rat \<Rightarrow> int \<Rightarrow> rat" where
  "scale10 m e = (if e < 0 then m / 10 ^ nat (- e) else m * 10 ^ nat e)"

definition apply_exponent :: "rat \<Rightarrow> string \<Rightarrow> rat option" where
  "apply_exponent m r =
     (case r of
        [] \<Rightarrow> Some m
      | c # t \<Rightarrow>
          if c = CHR ''e'' \<or> c = CHR ''E''
          then map_option (scale10 m) (parse_exponent t)
          else None)"

definition parse_decimal :: "string \<Rightarrow> rat option" where
  "parse_decimal s =
     (let ip = takeWhile is_digit s;
          r1 = dropWhile is_digit s;
          (fp, r2) = (case r1 of
                        c # t \<Rightarrow> if c = CHR ''.''
                                 then (takeWhile is_digit t, dropWhile is_digit t)
                                 else ([], r1)
                      | [] \<Rightarrow> ([], r1))
      in if ip = [] \<and> fp = [] then None
         else apply_exponent
                (of_nat (digits_val ip) + of_nat (digits_val fp) / 10 ^ length fp) r2)"

definition py_float :: "string \<Rightarrow> rat option" where
  "py_float s =
     (case strip s of
        [] \<Rightarrow> None
      | c # t \<Rightarrow>
          if c = CHR ''-'' then map_option uminus (parse_decimal t)
          else if c = CHR ''+'' then parse_decimal t
          else parse_decimal (c # t))"


section \<open>Regular-expression searches\<close>

text \<open>
  The group \<open>(\d+\.?\d*)\<close> at the start of a text that begins with a digit.  Each part of
  the group is greedy, and none of the patterns below can succeed after giving a
  character of the group back, so the greedy match is the only one.
\<close>

definition number_prefix :: "string \<Rightarrow> string" where
  "number_prefix s =
     (let ds = takeWhile is_digit s; r = dropWhile is_digit s
      in case r of
           c # t \<Rightarrow> if c = CHR ''.'' then ds @ ''.'' @ takeWhile is_digit t else ds
         | [] \<Rightarrow> ds)"

definition match_number :: "string \<Rightarrow> (string \<times> string) option" where
  "match_number s =
     (case s of
        [] \<Rightarrow> None
      | c # t \<Rightarrow> if is_digit c
               then Some (number_prefix s, drop (length (number_prefix s)) s)
               else None)"

text \<open>\<open>re.search\<close>: the match at the leftmost position where the pattern matches.\<close>

fun search_re :: "(string \<Rightarrow> 'a option) \<Rightarrow> string \<Rightarrow> 'a option" where
  "search_re m [] = m []"
| "search_re m (c # cs) = (case m (c # cs) of Some r \<Rightarrow> Some r | None \<Rightarrow> search_re m cs)"

text \<open>\<open>re.search(r'(\d+\.?\d*)', text)\<close>, group 1.\<close>

definition search_number :: "string \<Rightarrow> string option" where
  "search_number text = search_re (\<lambda>s. map_option fst (match_number s)) text"

text \<open>A literal of a pattern compiled with \<open>re.IGNORECASE\<close>, at the start of a text.\<close>

definition ci_prefix :: "string \<Rightarrow> string \<Rightarrow> bool" where
  "ci_prefix lit s = prefix (lower lit) (lower s)"

section \<open>Numeric extraction\<close>

text \<open>
  \<open>data_models.py\<close>, the function the Galaxy scraper imports:
  \<^verbatim>\<open>
  def extract_float(text: str) -> Optional[float]:
      if not text:
          return None
      match = re.search(r'(\d+\.?\d*)', text)
      if match:
          return float(match.group(1))
      return None
  \<close>
\<close>

definition extract_float :: "string \<Rightarrow> rat option" where
  "extract_float text =
     (if text = [] then None
      else case search_number text of
             Some g \<Rightarrow> py_float g
           | None \<Rightarrow> None)"

text \<open>\<open>s.split()\<close>: the maximal runs of characters that are not whitespace.\<close>

function split_ws :: "string \<Rightarrow> string list" where
  "split_ws s =
     (let t = dropWhile is_space s
      in if t = [] then []
         else takeWhile (\<lambda>c. \<not> is_space c) t # split_ws (dropWhile (\<lambda>c. \<not> is_space c) t))"
  by pat_completeness auto
termination
proof (relation "measure length")
  fix s t :: string
  assume t: "t = dropWhile is_space s" and ne: "t \<noteq> []"
  have "\<not> is_space (hd t)"
    using ne unfolding t by (rule hd_dropWhile)
  then have "length (dropWhile (\<lambda>c. \<not> is_space c) t) < length t"
    using ne by (cases t) (auto simp: le_imp_less_Suc length_dropWhile_le)
  also have "length t \<le> length s"
    unfolding t by (rule length_dropWhile_le)
  finally show "(dropWhile (\<lambda>c. \<not> is_space c) t, s) \<in> measure length"
    by simp
qed simp

declare split_ws.simps [simp del]

text \<open>\<open>s.split(sep)\<close> for a separator of one character.\<close>

fun split_on :: "char \<Rightarrow> string \<Rightarrow> string list" where
  "split_on sep [] = [[]]"
| "split_on sep (c # cs) =
     (if c = sep then [] # split_on sep cs
      else case split_on sep cs of
             p # ps \<Rightarrow> (c # p) # ps
           | [] \<Rightarrow> [[c]])"

text \<open>
  \<open>paddle_scraper.py\<close>:
  \<^verbatim>\<open>
  def extract_float(text: str) -> Optional[float]:
      if not text:
          return None
      text = text.replace('in', '').replace('oz', '').replace('ounces', '').strip()
      if ' ' in text:
          parts = text.split()
          if len(parts) == 2:
              try:
                  whole = float(parts[0])
                  if '/' in parts[1]:
                      frac_parts = parts[1].split('/')
                      if len(frac_parts) == 2:
                          fraction = float(frac_parts[0]) / float(frac_parts[1])
                          return whole + fraction
              except (ValueError, ZeroDivisionError):
                  pass
      if '/' in text and text.count('/') == 1:
          try:
              frac_parts = text.split('/')
              return float(frac_parts[0]) / float(frac_parts[1])
          except (ValueError, ZeroDivisionError):
              pass
      match = re.search(r'(\d+\.?\d*)', text)
      if match:
          try:
              return float(match.group(1))
          except ValueError:
              pass
      return None
  \<close>
  Each of the three blocks is a function that gives \<open>None\<close> when the block does not
  return: its condition is false, or the exception is caught and passed.
\<close>

definition strip_units :: "string \<Rightarrow> string" where
  "strip_units text = strip (replace ''ounces'' [] (replace ''oz'' [] (replace ''in'' [] text)))"

text \<open>\<open>float(a) / float(b)\<close> inside a \<open>try\<close> that catches both exceptions.\<close>

definition float_quotient :: "string \<Rightarrow> string \<Rightarrow> rat option" where
  "float_quotient a b =
     (case py_float a of
        None \<Rightarrow> None
      | Some n \<Rightarrow>
          (case py_float b of
             None \<Rightarrow> None
           | Some d \<Rightarrow> if d = 0 then None else Some (n / d)))"

definition mixed_number :: "string \<Rightarrow> rat option" where
  "mixed_number text =
     (if CHR '' '' \<in> set text
      then (case split_ws text of
              [p0, p1] \<Rightarrow>
                (case py_float p0 of
                   None \<Rightarrow> None
                 | Some whole \<Rightarrow>
                     if CHR ''/'' \<in> set p1
                     then (case split_on CHR ''/'' p1 of
                             [f0, f1] \<Rightarrow> map_option (\<lambda>fraction. whole + fraction) (float_quotient f0 f1)
                           | _ \<Rightarrow> None)
                     else None)
            | _ \<Rightarrow> None)
      else None)"

definition simple_fraction :: "string \<Rightarrow> rat option" where
  "simple_fraction text =
     (if CHR ''/'' \<in> set text \<and> count_list text CHR ''/'' = 1
      then (case split_on CHR ''/'' text of
              f0 # f1 # _ \<Rightarrow> float_quotient f0 f1
            | _ \<Rightarrow> None)
      else None)"

definition regular_number :: "string \<Rightarrow> rat option" where
  "regular_number text = (case search_number text of Some g \<Rightarrow> py_float g | None \<Rightarrow> None)"

definition paddle_scraper_extract_float :: "string \<Rightarrow> rat option" where
  "paddle_scraper_extract_float text =
     (if text = [] then None
      else
        (let text = strip_units text
         in case mixed_number text of
              Some v \<Rightarrow> Some v
            | None \<Rightarrow>
                (case simple_fraction text of
                   Some v \<Rightarrow> Some v
                 | None \<Rightarrow> regular_number text)))"

section \<open>Shape classifier\<close>

text \<open>
  \<^verbatim>\<open>
  def determine_paddle_shape_from_length(paddle_length: float) -> str:
      if paddle_length >= 16.5:
          return "Elongated"
      elif paddle_length >= 16.25:
          return "Hybrid"
      else:
          return "Wide-body"  # Typically 16 inches or shorter
  \<close>
  Both thresholds are binary fractions, so the comparisons are the same on floats and
  on the rationals they denote.
\<close>

definition determine_paddle_shape_from_length :: "rat \<Rightarrow> string" where
  "determine_paddle_shape_from_length paddle_length =
     (if paddle_length \<ge> 33 / 2 then ''Elongated''
      else if paddle_length \<ge> 65 / 4 then ''Hybrid''
      else ''Wide-body'')"

definition shape_mapping :: "(string \<times> string) list" where
  "shape_mapping =
     [(''elongated'', ''Elongated''),
      (''elongated shape'', ''Elongated''),
      (''long'', ''Elongated''),
      (''hybrid'', ''Hybrid''),
      (''hybrid shape'', ''Hybrid''),
      (''wide-body'', ''Wide-body''),
      (''widebody'', ''Wide-body''),
      (''wide body'', ''Wide-body''),
      (''standard'', ''Wide-body''),
      (''teardrop'', ''Wide-body''),
      (''traditional'', ''Wide-body''),
      (''classic'', ''Wide-body''),
      ([], ''Wide-body'')]"

text \<open>
  \<^verbatim>\<open>
  def normalize_paddle_shape(shape: str) -> str:
      if not shape:
          return "Wide-body"  # Default fallback
      shape_lower = shape.lower().strip()
      shape_mapping = { ... }
      return shape_mapping.get(shape_lower, "Wide-body")
  \<close>
\<close>

definition normalize_paddle_shape :: "string \<Rightarrow> string" where
  "normalize_paddle_shape shape =
     (if shape = [] then ''Wide-body''
      else (let shape_lower = strip (lower shape)
            in case map_of shape_mapping shape_lower of
                 Some v \<Rightarrow> v
               | None \<Rightarrow> ''Wide-body''))"

section \<open>Records\<close>

record metadata =
  brand :: string
  model :: string
  source :: string

record specs =
  shape :: "string option"
  surface :: "string option"
  average_weight :: "rat option"
  core :: "rat option"
  paddle_length :: "rat option"
  paddle_width :: "rat option"
  grip_length :: "rat option"
  grip_type :: "string option"
  grip_circumference :: "rat option"

record performance =
  power_f :: rat
  pop :: rat
  spin :: rat
  twist_weight :: rat
  swing_weight :: rat
  balance_point :: rat

record paddle =
  id_f :: string
  metadata :: metadata
  specs :: specs
  performance :: "performance option"

section \<open>Galaxy scraper: field resolution\<close>

text \<open>
  \<open>specs_data\<close> is the dictionary of the "key: value" items of the page.  The functions
  below are the blocks of \<open>PickleballGalaxyScraper.scrape_paddle\<close> that resolve one
  field each from it, from the description text and from the title.
\<close>

type_synonym specs_data = "string \<rightharpoonup> string"

text \<open>
  \<^verbatim>\<open>
  length = None
  if 'paddle length' in specs_data:
      length_str = specs_data['paddle length'].replace('in', '').strip()
      length = extract_float(length_str)
  \<close>
\<close>

definition galaxy_length :: "specs_data \<Rightarrow> rat option" where
  "galaxy_length specs_data =
     (case specs_data ''paddle length'' of
        Some v \<Rightarrow> extract_float (strip (replace ''in'' [] v))
      | None \<Rightarrow> None)"

text \<open>
  \<^verbatim>\<open>
  weight = None
  if 'weight' in specs_data:
      weight_str = specs_data['weight'].replace('ounces', '').strip()
      if '-' in weight_str:
          weight_parts = weight_str.split('-')
          if len(weight_parts) == 2:
              try:
                  min_weight = float(weight_parts[0].strip())
                  max_weight = float(weight_parts[1].strip())
                  weight = (min_weight + max_weight) / 2  # Use average
              except ValueError as e:
                  ...
      else:
          weight = extract_float(weight_str)
  \<close>
\<close>

definition weight_range :: "string \<Rightarrow> rat option" where
  "weight_range weight_str =
     (case split_on CHR ''-'' weight_str of
        [p0, p1] \<Rightarrow>
          (case py_float (strip p0) of
             None \<Rightarrow> None
           | Some min_weight \<Rightarrow>
               (case py_float (strip p1) of
                  None \<Rightarrow> None
                | Some max_weight \<Rightarrow> Some ((min_weight + max_weight) / 2)))
      | _ \<Rightarrow> None)"

definition resolve_weight :: "string \<Rightarrow> rat option" where
  "resolve_weight v =
     (let weight_str = strip (replace ''ounces'' [] v)
      in if CHR ''-'' \<in> set weight_str then weight_range weight_str
         else extract_float weight_str)"

definition galaxy_weight :: "specs_data \<Rightarrow> rat option" where
  "galaxy_weight specs_data =
     (case specs_data ''weight'' of
        Some v \<Rightarrow> resolve_weight v
      | None \<Rightarrow> None)"

text \<open>
  \<^verbatim>\<open>
  shape = None
  if length:
      shape = determine_paddle_shape_from_length(length)
      shape = normalize_paddle_shape(shape)
  \<close>
\<close>

definition galaxy_shape :: "rat option \<Rightarrow> string option" where
  "galaxy_shape length_v =
     (case length_v of
        Some l \<Rightarrow> if l \<noteq> 0
                  then Some (normalize_paddle_shape (determine_paddle_shape_from_length l))
                  else None
      | None \<Rightarrow> None)"











text \<open>
  \<^verbatim>\<open>
  # Do not generate synthetic performance metrics; leave unset when not scraped
  performance = None
  \<close>
\<close>

definition galaxy_performance :: "performance option" where
  "galaxy_performance = None"

section \<open>Central scraper: one product card\<close>

text \<open>
  \<open>scrape_central_paddles\<close> handles each product card in one pass of its loop.  The
  card is given by the texts of its elements (\<open>None\<close> when the selector finds no
  element), by the dictionary \<open>scrape_product_specs\<close> returned for it (empty when the
  card has no link), and by the six numbers that the calls of \<open>random.uniform\<close>
  return.
\<close>

record card =
  brand_elem :: "string option"
  title_elem :: "string option"
  price_elem :: "string option"
  desc_elem :: "string option"
  product_specs :: "string \<rightharpoonup> string"

record draws =
  u_power :: rat
  u_pop :: rat
  u_spin :: rat
  u_twist_weight :: rat
  u_swing_weight :: rat
  u_balance_point :: rat

text \<open>
  \<^verbatim>\<open>
  shape = None
  if specs.get('paddle_length'):
      try:
          length_text = specs['paddle_length']
          length_match = re.search(r'(\d+\.?\d*)', length_text)
          if length_match:
              paddle_length = float(length_match.group(1))
              shape = determine_paddle_shape_from_length(paddle_length)
              shape = normalize_paddle_shape(shape)
      except (ValueError, TypeError) as e:
          ...
  \<close>
\<close>

definition shape_from_specs :: "(string \<rightharpoonup> string) \<Rightarrow> string option" where
  "shape_from_specs sp =
     (case sp ''paddle_length'' of
        None \<Rightarrow> None
      | Some length_text \<Rightarrow>
          if length_text = [] then None
          else (case search_number length_text of
                  None \<Rightarrow> None
                | Some g \<Rightarrow>
                    (case py_float g of
                       None \<Rightarrow> None
                     | Some l \<Rightarrow>
                         Some (normalize_paddle_shape
                                 (determine_paddle_shape_from_length l)))))"

text \<open>
  \<^verbatim>\<open>
  if not shape:
      shape_keywords = {
          "Elongated": ["elongated", "long", "16.5", "16.75"],
          "Hybrid": ["hybrid", "16.25", "16.3"],
          "Standard": ["standard", "traditional", "classic", "16", "16.0"]
      }
      for shape_type, keywords in shape_keywords.items():
          for keyword in keywords:
              if keyword.lower() in description.lower():
                  shape = shape_type
                  break
          if shape:
              break
  if not shape:
      shape = "Standard"
  \<close>
\<close>

definition shape_keywords :: "(string \<times> string list) list" where
  "shape_keywords =
     [(''Elongated'', [''elongated'', ''long'', ''16.5'', ''16.75'']),
      (''Hybrid'', [''hybrid'', ''16.25'', ''16.3'']),
      (''Standard'', [''standard'', ''traditional'', ''classic'', ''16'', ''16.0''])]"

definition shape_from_description :: "string \<Rightarrow> string option" where
  "shape_from_description description =
     map_option fst
       (find (\<lambda>(shape_type, keywords).
                list_ex (\<lambda>keyword. contains (lower keyword) (lower description)) keywords)
          shape_keywords)"

definition truthy_str :: "string option \<Rightarrow> bool" where
  "truthy_str v = (case v of None \<Rightarrow> False | Some x \<Rightarrow> x \<noteq> [])"

definition central_shape :: "(string \<rightharpoonup> string) \<Rightarrow> string \<Rightarrow> string" where
  "central_shape sp description =
     (let shape_v = shape_from_specs sp;
          shape_v = (if \<not> truthy_str shape_v then shape_from_description description
                     else shape_v)
      in if \<not> truthy_str shape_v then ''Standard''
         else (case shape_v of Some v \<Rightarrow> v | None \<Rightarrow> ''Standard''))"

text \<open>
  \<^verbatim>\<open>
  performance = Performance(
      power=80.0 + random.uniform(-5, 5),
      pop=75.0 + random.uniform(-5, 5),
      spin=3000.0 + random.uniform(-400, 400),
      twist_weight=200.0 + random.uniform(-15, 15),
      swing_weight=215.0 + random.uniform(-15, 15),
      balance_point=29.0 + random.uniform(-2, 2)
  )
  \<close>
\<close>

definition central_performance :: "draws \<Rightarrow> performance" where
  "central_performance u =
     \<lparr>power_f = 80 + u_power u,
      pop = 75 + u_pop u,
      spin = 3000 + u_spin u,
      twist_weight = 200 + u_twist_weight u,
      swing_weight = 215 + u_swing_weight u,
      balance_point = 29 + u_balance_point u\<rparr>"

definition central_specs :: "string \<Rightarrow> specs" where
  "central_specs shape_v =
     \<lparr>shape = Some shape_v,
      surface = Some ''Carbon Fiber'',
      average_weight = Some 215,
      core = Some (29 / 2),
      paddle_length = Some 16,
      paddle_width = Some (15 / 2),
      grip_length = Some 5,
      grip_type = Some ''Standard'',
      grip_circumference = Some (17 / 4)\<rparr>"

text \<open>
  One pass of the loop over the product cards: \<open>None\<close> when the card is skipped
  (\<open>continue\<close>) or when an exception ends the pass (the price is not a number),
  otherwise the paddle that is appended.
\<close>

definition central_paddle :: "card \<Rightarrow> draws \<Rightarrow> paddle option" where
  "central_paddle c u =
     (case (brand_elem c, title_elem c, price_elem c) of
        (Some brand_text, Some title_text, Some price_text) \<Rightarrow>
          (let brand_v = strip brand_text;
               name = strip title_text
           in if (brand_v = [] \<or> lower brand_v = ''unknown'')
                 \<and> (name = [] \<or> lower name = ''unknown product'')
              then None
              else (case py_float (replace '','' [] (replace ''$'' [] (strip price_text))) of
                      None \<Rightarrow> None
                    | Some price \<Rightarrow>
                        (let description = (case desc_elem c of
                                              Some d \<Rightarrow> strip d | None \<Rightarrow> []);
                             shape_v = central_shape (product_specs c) description
                         in Some \<lparr>id_f = generate_paddle_id brand_v name,
                                  metadata = \<lparr>brand = brand_v, model = name,
                                               source = ''Pickleball Central''\<rparr>,
                                  specs = central_specs shape_v,
                                  performance = Some (central_performance u)\<rparr>)))
      | _ \<Rightarrow> None)"

section \<open>Name cleaner\<close>

text \<open>
  \<^verbatim>\<open>
  def clean_model_name(model: str) -> str:
      if not model:
          return model
      model = re.sub(r'\s*\|\s*.*$', '', model)
      model = re.sub(r'[|...]+', '', model)     # the pipe and four look-alikes
      unwanted_suffixes = [
          "Pickleball Paddle", "Paddle", " - PBC", " - NEW",
          " - Limited Edition", " - LE", " -", "|", "...",
          " - Elongated", " - Standard", " - Teardrop"
      ]
      for suffix in unwanted_suffixes:
          if model.endswith(suffix):
              model = model[:-len(suffix)].strip()
      model = re.sub(r'\s*\([^)]*\)\s*', ' ', model).strip()
      common_descriptors = ["New", "NEW", "Limited Edition", "SALE", "In Stock"]
      for descriptor in common_descriptors:
          model = re.sub(rf'\b{re.escape(descriptor)}\b', '', model, flags=re.IGNORECASE)
      model = re.sub(r'\s+', ' ', model).strip()
      return model
  \<close>
  The four look-alikes of the pipe in the character class, and the ninth suffix, which
  is one of them, are characters outside ASCII; the model has the ASCII pipe only.
\<close>

definition newline :: char where
  "newline = CHR 0x0A"

definition is_pipe :: "char \<Rightarrow> bool" where
  "is_pipe c = (c = CHR ''|'')"

text \<open>
  The rest \<open>\s*.*$\<close> of the first pattern, on the text after a pipe: the whitespace,
  then the characters up to the next newline; \<open>$\<close> holds at the end of the text and
  before a newline that ends it.  The result is what the match leaves of the text.
\<close>

definition pipe_tail :: "string \<Rightarrow> string option" where
  "pipe_tail rest =
     (let r = dropWhile (\<lambda>c. c \<noteq> newline) (dropWhile is_space rest)
      in if r = [] \<or> r = [newline] then Some r else None)"

text \<open>
  \<open>re.sub(r'\s*\|\s*.*$', '', model)\<close>.  The first argument is the run of whitespace
  read just before the current position: a match starts where that run starts.
\<close>

fun cut_pipe :: "string \<Rightarrow> string \<Rightarrow> string" where
  "cut_pipe ws [] = ws"
| "cut_pipe ws (c # cs) =
     (if c = CHR ''|''
      then (case pipe_tail cs of
              Some r \<Rightarrow> r
            | None \<Rightarrow> ws @ c # cut_pipe [] cs)
      else if is_space c then cut_pipe (ws @ [c]) cs
      else ws @ c # cut_pipe [] cs)"

definition unwanted_suffixes :: "string list" where
  "unwanted_suffixes =
     [''Pickleball Paddle'', ''Paddle'', '' - PBC'', '' - NEW'',
      '' - Limited Edition'', '' - LE'', '' -'', ''|'',
      '' - Elongated'', '' - Standard'', '' - Teardrop'']"

definition strip_suffix :: "string \<Rightarrow> string \<Rightarrow> string" where
  "strip_suffix m suf =
     (if endswith m suf then strip (take (length m - length suf) m) else m)"

definition strip_suffixes :: "string \<Rightarrow> string" where
  "strip_suffixes m = foldl strip_suffix m unwanted_suffixes"

text \<open>
  \<open>re.sub(r'\s*\([^)]*\)\s*', ' ', model)\<close>, with the pending run of whitespace as for
  \<open>cut_pipe\<close>.  An opening parenthesis starts a match when a closing one follows it;
  the match ends after the first closing one and the whitespace behind it.
\<close>

function sub_parens :: "string \<Rightarrow> string \<Rightarrow> string" where
  "sub_parens ws [] = ws"
| "sub_parens ws (c # cs) =
     (if c = CHR ''('' \<and> CHR '')'' \<in> set cs
      then CHR '' '' #
           sub_parens [] (dropWhile is_space (tl (dropWhile (\<lambda>x. x \<noteq> CHR '')'') cs)))
      else if is_space c then sub_parens (ws @ [c]) cs
      else ws @ c # sub_parens [] cs)"
  by pat_completeness auto
termination
proof (relation "measure (\<lambda>(ws, s). length s)")
  fix ws :: string and c :: char and cs :: string
  have "length (dropWhile is_space (tl (dropWhile (\<lambda>x. x \<noteq> CHR '')'') cs)))
        \<le> length (tl (dropWhile (\<lambda>x. x \<noteq> CHR '')'') cs))"
    by (rule length_dropWhile_le)
  also have "\<dots> \<le> length (dropWhile (\<lambda>x. x \<noteq> CHR '')'') cs)"
    by simp
  also have "\<dots> \<le> length cs"
    by (rule length_dropWhile_le)
  finally have "length (dropWhile is_space (tl (dropWhile (\<lambda>x. x \<noteq> CHR '')'') cs)))
        \<le> length cs" .
  then show "(([], dropWhile is_space (tl (dropWhile (\<lambda>x. x \<noteq> CHR '')'') cs))), ws, c # cs)
             \<in> measure (\<lambda>(ws, s). length s)"
    by simp
qed simp_all

text \<open>
  \<open>\b\<close> holds between two positions of which exactly one is a word character; the
  positions before the start and after the end of the text count as none.
\<close>

definition next_is_word :: "string \<Rightarrow> bool" where
  "next_is_word s = (case s of [] \<Rightarrow> False | c # _ \<Rightarrow> is_word c)"

definition word_match :: "string \<Rightarrow> bool \<Rightarrow> string \<Rightarrow> bool" where
  "word_match d prev_word s =
     (prev_word \<noteq> next_is_word s
      \<and> ci_prefix d s
      \<and> is_word (last (take (length d) s)) \<noteq> next_is_word (drop (length d) s))"

text \<open>
  \<open>re.sub(rf'\b{re.escape(d)}\b', '', model, flags=re.IGNORECASE)\<close>; the second
  argument tells whether the character before the current position is a word character.
\<close>

function sub_word :: "string \<Rightarrow> bool \<Rightarrow> string \<Rightarrow> string" where
  "sub_word d prev_word [] = []"
| "sub_word d prev_word (c # cs) =
     (if d \<noteq> [] \<and> word_match d prev_word (c # cs)
      then sub_word d (is_word (last (take (length d) (c # cs)))) (drop (length d) (c # cs))
      else c # sub_word d (is_word c) cs)"
  by pat_completeness auto
termination
  by (relation "measure (\<lambda>(d, p, s). length s)") auto

definition common_descriptors :: "string list" where
  "common_descriptors = [''New'', ''NEW'', ''Limited Edition'', ''SALE'', ''In Stock'']"

definition remove_descriptors :: "string \<Rightarrow> string" where
  "remove_descriptors m = foldl (\<lambda>m d. sub_word d False m) m common_descriptors"

text \<open>\<open>re.sub(r'\s+', ' ', model)\<close>\<close>

function collapse_ws :: "string \<Rightarrow> string" where
  "collapse_ws [] = []"
| "collapse_ws (c # cs) =
     (if is_space c then CHR '' '' # collapse_ws (dropWhile is_space cs)
      else c # collapse_ws cs)"
  by pat_completeness auto
termination
  by (relation "measure length") (auto simp: le_imp_less_Suc length_dropWhile_le)

definition clean_model_name :: "string \<Rightarrow> string" where
  "clean_model_name m =
     (if m = [] then m
      else
        (let m = cut_pipe [] m;
             m = filter (\<lambda>c. \<not> is_pipe c) m;
             m = strip_suffixes m;
             m = strip (sub_parens [] m);
             m = remove_descriptors m
         in strip (collapse_ws m)))"

section \<open>Predicates used in the proofs\<close>

text \<open>The characters of a decimal literal.\<close>

definition float_char :: "char \<Rightarrow> bool" where
  "float_char c = (is_digit c \<or> c \<in> set ''.eE+-'')"

section \<open>The identity assigner as the specification words it\<close>

text \<open>
  Modelled from the specification, for comparison with \<open>generate_paddle_id\<close>:
  "lower-case both inputs, replace internal whitespace with hyphens, concatenate as
  brand-model".  Every whitespace character becomes a hyphen.
\<close>

definition slug_spec :: "string \<Rightarrow> string" where
  "slug_spec s = map (\<lambda>c. if is_space c then CHR ''-'' else c) (lower s)"

definition assignId_spec :: "string \<Rightarrow> string \<Rightarrow> string" where
  "assignId_spec brand_v model_v = slug_spec brand_v @ ''-'' @ slug_spec model_v"

text \<open>What \<open>generate_paddle_id\<close> does to one character.\<close>

definition slug_char :: "char \<Rightarrow> char" where
  "slug_char c = (if c = CHR '' '' then CHR ''-'' else lower_char c)"

text \<open>The two halves of \<open>strip\<close>: \<open>s.lstrip()\<close> and \<open>s.rstrip()\<close>.\<close>

definition lstrip :: "string \<Rightarrow> string" where
  "lstrip s = dropWhile is_space s"

definition rstrip :: "string \<Rightarrow> string" where
  "rstrip s = rev (dropWhile is_space (rev s))"

text \<open>
  No opening parenthesis has a closing one after it; every whitespace character is a
  single space with no whitespace after it.
\<close>

fun no_pair :: "string \<Rightarrow> bool" where
  "no_pair [] = True"
| "no_pair (c # cs) = ((c = CHR ''('' \<longrightarrow> CHR '')'' \<notin> set cs) \<and> no_pair cs)"

fun single_spaced :: "string \<Rightarrow> bool" where
  "single_spaced [] = True"
| "single_spaced (c # cs) =
     ((is_space c \<longrightarrow> c = CHR '' '' \<and> (cs = [] \<or> \<not> is_space (hd cs))) \<and> single_spaced cs)"

section \<open>Properties of the identity assigner\<close>

lemma replace_single: "replace [a] [b] s = map (\<lambda>c. if c = a then b else c) s"
  by (induction s) auto

text \<open>
  C10: two pairs of inputs with different brands and different models receive the same
  identifier, because a space inside a name and the separator between brand and model
  are both written as a hyphen: the pairs ("a b", "c") and ("a", "b c") both give "a-b-c".
\<close>

theorem generate_paddle_id_collision:
  "generate_paddle_id ''a b'' ''c'' = ''a-b-c''
   \<and> generate_paddle_id ''a'' ''b c'' = ''a-b-c''
   \<and> ''a b'' \<noteq> ''a'' \<and> ''c'' \<noteq> ''b c''"
  by (simp add: generate_paddle_id_def lower_def lower_char_def upper_letters_def
      lower_letters_def)

section \<open>Properties of the shape classifier\<close>

text \<open>
  C6: for every length, the length-based classifier returns "Elongated" exactly when
  the length is at least 16.5, "Hybrid" exactly when it is at least 16.25 and below 16.5,
  and "Wide-body" exactly when it is below 16.25; at the boundaries 16.5 is Elongated,
  16.25 is Hybrid and 16.0 is Wide-body.
\<close>

theorem determine_paddle_shape_from_length_thresholds:
  "(determine_paddle_shape_from_length l = ''Elongated'') = (l \<ge> 33 / 2)
   \<and> (determine_paddle_shape_from_length l = ''Hybrid'') = (65 / 4 \<le> l \<and> l < 33 / 2)
   \<and> (determine_paddle_shape_from_length l = ''Wide-body'') = (l < 65 / 4)
   \<and> determine_paddle_shape_from_length (33 / 2) = ''Elongated''
   \<and> determine_paddle_shape_from_length (65 / 4) = ''Hybrid''
   \<and> determine_paddle_shape_from_length 16 = ''Wide-body''"
  by (auto simp: determine_paddle_shape_from_length_def)

text \<open>
  C1: the shape of every assembled record should be one of "Elongated", "Hybrid" and
  "Wide-body", with "Wide-body" as the default.  The normaliser does return one of the
  three for every text, and maps "Standard" to "Wide-body"; but the Central scraper
  applies it to the shape found from the length only.  A card without a length in its
  specification and without a description gets the shape "Standard", which is none of
  the three, and the Galaxy scraper leaves the shape unset when it has no length.
\<close>

theorem central_shape_not_canonical:
  "normalize_paddle_shape s \<in> {''Elongated'', ''Hybrid'', ''Wide-body''}
   \<and> normalize_paddle_shape ''Standard'' = ''Wide-body''
   \<and> map_option (\<lambda>p. shape (specs p))
        (central_paddle
           \<lparr>brand_elem = Some ''Selkirk'', title_elem = Some ''SLK Era'',
            price_elem = Some ''$199.99'', desc_elem = None, product_specs = Map.empty\<rparr>
           \<lparr>u_power = 0, u_pop = 0, u_spin = 0, u_twist_weight = 0, u_swing_weight = 0,
            u_balance_point = 0\<rparr>)
      = Some (Some ''Standard'')
   \<and> ''Standard'' \<notin> {''Elongated'', ''Hybrid'', ''Wide-body''}
   \<and> galaxy_shape (galaxy_length Map.empty) = None"
proof -
  have "normalize_paddle_shape s \<in> {''Elongated'', ''Hybrid'', ''Wide-body''}"
    by (auto simp: normalize_paddle_shape_def shape_mapping_def Let_def
        split: option.splits if_splits)
  moreover have "normalize_paddle_shape ''Standard'' = ''Wide-body''"
    by code_simp
  moreover have "map_option (\<lambda>p. shape (specs p))
        (central_paddle
           \<lparr>brand_elem = Some ''Selkirk'', title_elem = Some ''SLK Era'',
            price_elem = Some ''$199.99'', desc_elem = None, product_specs = Map.empty\<rparr>
           \<lparr>u_power = 0, u_pop = 0, u_spin = 0, u_twist_weight = 0, u_swing_weight = 0,
            u_balance_point = 0\<rparr>)
      = Some (Some ''Standard'')"
    by code_simp
  moreover have "''Standard'' \<notin> {''Elongated'', ''Hybrid'', ''Wide-body''}"
    by simp
  moreover have "galaxy_shape (galaxy_length Map.empty) = None"
    by code_simp
  ultimately show ?thesis by blast
qed

section \<open>Properties of the performance ratings\<close>

text \<open>
  C2: performance ratings should be absent when the page has none, and never made up.
  The Galaxy scraper leaves them unset.  The Central scraper reads no rating from the
  page and fills all six with a fixed baseline plus a random draw: the card below, with
  every draw equal to 0, gets the baselines themselves.
\<close>

theorem central_performance_fabricated:
  "map_option performance
     (central_paddle
        \<lparr>brand_elem = Some ''Selkirk'', title_elem = Some ''SLK Era'',
         price_elem = Some ''$199.99'', desc_elem = None, product_specs = Map.empty\<rparr>
        \<lparr>u_power = 0, u_pop = 0, u_spin = 0, u_twist_weight = 0, u_swing_weight = 0,
         u_balance_point = 0\<rparr>)
   = Some (Some \<lparr>power_f = 80, pop = 75, spin = 3000, twist_weight = 200,
                  swing_weight = 215, balance_point = 29\<rparr>)
   \<and> galaxy_performance = None"
  by code_simp

section \<open>Properties of the numeric extraction\<close>

text \<open>
  C9: the two functions called \<open>extract_float\<close> should return the same result on every
  text.  They do not: on "1/4" the one in \<open>paddle_scraper.py\<close> returns 0.25 and the one in
  \<open>data_models.py\<close>, which the Galaxy scraper uses, returns 1.0; on "4 1/8" they return
  4.125 and 4.0.
\<close>

theorem extract_float_implementations_differ:
  "extract_float ''1/4'' = Some 1
   \<and> paddle_scraper_extract_float ''1/4'' = Some (1 / 4)
   \<and> extract_float ''4 1/8'' = Some 4
   \<and> paddle_scraper_extract_float ''4 1/8'' = Some (33 / 8)"
  by code_simp

section \<open>Parsing lemmas\<close>

lemma is_digit_not_space: "is_digit c \<Longrightarrow> \<not> is_space c"
  by (auto simp: is_digit_def is_space_def)

lemma is_digit_not_sign: "is_digit c \<Longrightarrow> c \<noteq> CHR ''-'' \<and> c \<noteq> CHR ''+'' \<and> c \<noteq> CHR ''.''"
  by (auto simp: is_digit_def)

lemma set_strip: "set (strip s) \<subseteq> set s"
  unfolding strip_def by (auto dest!: set_dropWhileD)

lemma strip_id:
  assumes "s \<noteq> []" "\<not> is_space (hd s)" "\<not> is_space (last s)"
  shows "strip s = s"
proof -
  have a: "dropWhile is_space s = s"
    using assms by (simp add: dropWhile_eq_self_iff)
  have "\<not> is_space (hd (rev s))"
    using assms by (simp add: hd_rev)
  then have b: "dropWhile is_space (rev s) = rev s"
    by (simp add: dropWhile_eq_self_iff)
  show ?thesis by (simp add: strip_def a b)
qed

lemma parse_decimal_digits:
  assumes "ds \<noteq> []" "list_all is_digit ds"
  shows "parse_decimal ds = Some (of_nat (digits_val ds))"
proof -
  have a: "takeWhile is_digit ds = ds" "dropWhile is_digit ds = []"
    using assms by (auto simp: list_all_iff)
  show ?thesis using assms(1) by (simp add: parse_decimal_def a digits_val_def apply_exponent_def)
qed

lemma parse_decimal_point:
  assumes "ds \<noteq> []" "list_all is_digit ds" "list_all is_digit fs"
  shows "parse_decimal (ds @ CHR ''.'' # fs)
         = Some (of_nat (digits_val ds) + of_nat (digits_val fs) / 10 ^ length fs)"
proof -
  have nd: "\<not> is_digit CHR ''.''" by (simp add: is_digit_def)
  have a: "takeWhile is_digit (ds @ CHR ''.'' # fs) = ds"
    using assms nd by (simp add: list_all_iff)
  have b: "dropWhile is_digit (ds @ CHR ''.'' # fs) = CHR ''.'' # fs"
    using assms nd by (simp add: list_all_iff)
  have c: "takeWhile is_digit fs = fs" "dropWhile is_digit fs = []"
    using assms by (auto simp: list_all_iff)
  show ?thesis using assms(1) by (simp add: parse_decimal_def a b c apply_exponent_def)
qed

lemma py_float_unsigned:
  assumes "s \<noteq> []" "is_digit (hd s)" "\<not> is_space (last s)"
  shows "py_float s = parse_decimal s"
proof -
  have "strip s = s" using assms by (intro strip_id) (auto dest: is_digit_not_space)
  then show ?thesis using assms is_digit_not_sign[of "hd s"]
    by (cases s) (auto simp: py_float_def)
qed

lemma number_prefix_cases:
  assumes "is_digit c"
  obtains ds where "number_prefix (c # t) = ds" "ds \<noteq> []" "list_all is_digit ds" "hd ds = c"
  | ds fs where "number_prefix (c # t) = ds @ CHR ''.'' # fs" "ds \<noteq> []" "list_all is_digit ds" "list_all is_digit fs" "hd ds = c"
proof -
  let ?ds = "takeWhile is_digit (c # t)"
  have ds: "?ds \<noteq> []" "list_all is_digit ?ds" "hd ?ds = c"
    using assms by (auto simp: list_all_iff dest: set_takeWhileD)
  show thesis
  proof (cases "dropWhile is_digit (c # t)")
    case Nil
    then have "number_prefix (c # t) = ?ds" by (simp add: number_prefix_def Let_def)
    with ds show ?thesis using that(1) by blast
  next
    case (Cons x r)
    show ?thesis
    proof (cases "x = CHR ''.''")
      case True
      then have "number_prefix (c # t) = ?ds @ CHR ''.'' # takeWhile is_digit r"
        using Cons by (simp add: number_prefix_def Let_def)
      moreover have "list_all is_digit (takeWhile is_digit r)"
        by (auto simp: list_all_iff dest: set_takeWhileD)
      ultimately show ?thesis using ds that(2) by blast
    next
      case False
      then have "number_prefix (c # t) = ?ds" using Cons by (simp add: number_prefix_def Let_def)
      with ds show ?thesis using that(1) by blast
    qed
  qed
qed

lemma py_float_number_prefix:
  assumes "is_digit c"
  shows "py_float (number_prefix (c # t)) \<noteq> None"
proof (rule number_prefix_cases[OF assms, of t])
  fix ds assume h: "number_prefix (c # t) = ds" "ds \<noteq> []" "list_all is_digit ds" "hd ds = c"
  then have "is_digit (last ds)" by (simp add: list_all_iff)
  then have "py_float ds = parse_decimal ds"
    using h assms by (intro py_float_unsigned) (auto dest: is_digit_not_space)
  then show ?thesis using h by (simp add: parse_decimal_digits)
next
  fix ds fs assume h: "number_prefix (c # t) = ds @ CHR ''.'' # fs" "ds \<noteq> []" "list_all is_digit ds" "list_all is_digit fs" "hd ds = c"
  have "\<not> is_space (last (ds @ CHR ''.'' # fs))"
    using h(4) by (cases fs rule: rev_cases) (auto simp: list_all_iff is_space_def dest: is_digit_not_space)
  then have "py_float (ds @ CHR ''.'' # fs) = parse_decimal (ds @ CHR ''.'' # fs)"
    using h assms by (intro py_float_unsigned) auto
  then show ?thesis using h by (simp add: parse_decimal_point)
qed

lemma search_number_None: "(search_number s = None) = (\<not> list_ex is_digit s)"
  by (induction s) (auto simp: search_number_def match_number_def split: option.splits)

lemma search_number_Some:
  "search_number s = Some g \<Longrightarrow> \<exists>c t. is_digit c \<and> g = number_prefix (c # t)"
proof (induction s)
  case Nil
  then show ?case by (simp add: search_number_def match_number_def)
next
  case (Cons a s)
  show ?case
  proof (cases "is_digit a")
    case True
    then have "g = number_prefix (a # s)"
      using Cons.prems by (simp add: search_number_def match_number_def)
    with True show ?thesis by blast
  next
    case False
    then have "search_number s = Some g"
      using Cons.prems by (simp add: search_number_def match_number_def)
    then show ?thesis by (rule Cons.IH)
  qed
qed

lemma regular_number_None: "(regular_number s = None) = (\<not> list_ex is_digit s)"
proof (cases "search_number s")
  case None
  then show ?thesis using search_number_None[of s] by (simp add: regular_number_def)
next
  case (Some g)
  then obtain c t where "is_digit c" "g = number_prefix (c # t)"
    using search_number_Some by blast
  then have "py_float g \<noteq> None" by (simp add: py_float_number_prefix)
  moreover have "list_ex is_digit s" using Some search_number_None[of s] by auto
  ultimately show ?thesis using Some by (auto simp: regular_number_def)
qed

lemma extract_float_digit:
  "list_ex is_digit (strip_units text) \<Longrightarrow> paddle_scraper_extract_float text \<noteq> None"
proof -
  assume d: "list_ex is_digit (strip_units text)"
  then have "text \<noteq> []" by (auto simp: strip_units_def strip_def)
  moreover have "regular_number (strip_units text) \<noteq> None"
    using d regular_number_None by blast
  ultimately show ?thesis
    by (auto simp: paddle_scraper_extract_float_def Let_def split: option.splits)
qed







lemma float_char_not_space: "float_char c \<Longrightarrow> \<not> is_space c"
  by (auto simp: float_char_def is_digit_def is_space_def)
















section \<open>The identifier as a slug\<close>

lemma lower_char_space: "(lower_char c = CHR '' '') = (c = CHR '' '')"
  by (auto simp: lower_char_def upper_letters_def lower_letters_def)

lemma lower_char_hyphen: "lower_char CHR ''-'' = CHR ''-''"
  by (simp add: lower_char_def upper_letters_def lower_letters_def)

lemma lower_char_idem: "lower_char (lower_char c) = lower_char c"
  by (auto simp: lower_char_def upper_letters_def lower_letters_def)

lemma lower_char_is_space: "is_space (lower_char c) = is_space c"
  by (auto simp: lower_char_def upper_letters_def lower_letters_def is_space_def)

lemma slug_lower: "replace '' '' ''-'' (lower s) = map slug_char s"
  by (simp add: replace_single lower_def slug_char_def lower_char_space)

lemma generate_paddle_id_map:
  "generate_paddle_id b m = map slug_char b @ ''-'' @ map slug_char m"
  by (simp add: generate_paddle_id_def slug_lower)

lemma slug_char_lower: "slug_char (lower_char c) = slug_char c"
  by (simp add: slug_char_def lower_char_space lower_char_idem)

lemma slug_char_hyphenate: "slug_char (if c = CHR '' '' then CHR ''-'' else c) = slug_char c"
  by (simp add: slug_char_def lower_char_hyphen)

lemma is_space_space: "is_space CHR '' ''"
  by (simp add: is_space_def)

lemma slug_char_spec:
  assumes "is_space c \<longrightarrow> c = CHR '' ''"
  shows "slug_char c = (if is_space (lower_char c) then CHR ''-'' else lower_char c)"
proof (cases "c = CHR '' ''")
  case True
  moreover have "lower_char CHR '' '' = CHR '' ''" using lower_char_space by blast
  ultimately show ?thesis by (simp add: slug_char_def is_space_space)
next
  case False
  then have "\<not> is_space c" using assms by blast
  then show ?thesis using False by (simp add: slug_char_def lower_char_is_space)
qed

text \<open>
  C8: the identifier is a function of its two arguments alone: each is lower-cased,
  each space character is replaced by a hyphen, and the two are joined by a hyphen.
  Only the space character is replaced; other whitespace stays (see the counterexample
  below).  The identifier does not change when the inputs are lower-cased first or
  when their spaces are written as hyphens first; inputs that are equal after this
  normalisation get equal identifiers; on inputs whose only whitespace is the space
  character the identifier is the slug of the specification; and ("Selkirk", "SLK Era")
  and ("selkirk", "slk era") get the same identifier.
\<close>

theorem generate_paddle_id_slug:
  "generate_paddle_id b m
     = map (\<lambda>c. if c = CHR '' '' then CHR ''-'' else lower_char c) b @ ''-''
       @ map (\<lambda>c. if c = CHR '' '' then CHR ''-'' else lower_char c) m
   \<and> generate_paddle_id (lower b) (lower m) = generate_paddle_id b m
   \<and> generate_paddle_id (replace '' '' ''-'' b) (replace '' '' ''-'' m) = generate_paddle_id b m
   \<and> (replace '' '' ''-'' (lower b) = replace '' '' ''-'' (lower b')
        \<and> replace '' '' ''-'' (lower m) = replace '' '' ''-'' (lower m')
        \<longrightarrow> generate_paddle_id b m = generate_paddle_id b' m')
   \<and> ((\<forall>c\<in>set (b @ m). is_space c \<longrightarrow> c = CHR '' '')
        \<longrightarrow> generate_paddle_id b m = assignId_spec b m)
   \<and> generate_paddle_id ''Selkirk'' ''SLK Era'' = generate_paddle_id ''selkirk'' ''slk era''"
proof (intro conjI impI)
  show "generate_paddle_id b m
     = map (\<lambda>c. if c = CHR '' '' then CHR ''-'' else lower_char c) b @ ''-''
       @ map (\<lambda>c. if c = CHR '' '' then CHR ''-'' else lower_char c) m"
    using generate_paddle_id_map[of b m] by (simp add: slug_char_def[abs_def])
  show "generate_paddle_id (lower b) (lower m) = generate_paddle_id b m"
    by (simp add: generate_paddle_id_map lower_def slug_char_lower)
  show "generate_paddle_id (replace '' '' ''-'' b) (replace '' '' ''-'' m) = generate_paddle_id b m"
    by (simp add: generate_paddle_id_map replace_single slug_char_hyphenate o_def)
  show "generate_paddle_id b m = generate_paddle_id b' m'"
    if "replace '' '' ''-'' (lower b) = replace '' '' ''-'' (lower b')
        \<and> replace '' '' ''-'' (lower m) = replace '' '' ''-'' (lower m')"
    using that by (simp add: generate_paddle_id_def)
  show "generate_paddle_id b m = assignId_spec b m"
    if h: "\<forall>c\<in>set (b @ m). is_space c \<longrightarrow> c = CHR '' ''"
  proof -
    have "map slug_char s = slug_spec s" if "\<forall>c\<in>set s. is_space c \<longrightarrow> c = CHR '' ''" for s
      using that by (simp add: slug_spec_def lower_def slug_char_spec)
    then show ?thesis using h by (simp add: generate_paddle_id_map assignId_spec_def)
  qed
  show "generate_paddle_id ''Selkirk'' ''SLK Era'' = generate_paddle_id ''selkirk'' ''slk era''"
    by code_simp
qed

theorem generate_paddle_id_slug_witness:
  "replace '' '' ''-'' (lower ''Selkirk'') = replace '' '' ''-'' (lower ''selkirk'')
   \<and> replace '' '' ''-'' (lower ''SLK Era'') = replace '' '' ''-'' (lower ''slk-era'')
   \<and> generate_paddle_id ''Selkirk'' ''SLK Era'' = generate_paddle_id ''selkirk'' ''slk-era''
   \<and> generate_paddle_id ''Selkirk'' ''SLK Era'' = assignId_spec ''Selkirk'' ''SLK Era''
   \<and> generate_paddle_id ''Selkirk'' ''SLK Era'' = ''selkirk-slk-era''"
proof -
  have a: "replace '' '' ''-'' (lower ''Selkirk'') = replace '' '' ''-'' (lower ''selkirk'')"
    by code_simp
  have b: "replace '' '' ''-'' (lower ''SLK Era'') = replace '' '' ''-'' (lower ''slk-era'')"
    by code_simp
  have c: "list_all (\<lambda>c. \<not> is_space c \<or> c = CHR '' '') (''Selkirk'' @ ''SLK Era'')"
    by code_simp
  then have c': "\<forall>c\<in>set (''Selkirk'' @ ''SLK Era''). is_space c \<longrightarrow> c = CHR '' ''"
    unfolding list_all_iff by blast
  have d: "generate_paddle_id ''Selkirk'' ''SLK Era'' = ''selkirk-slk-era''"
    by code_simp
  note th = generate_paddle_id_slug[of "''Selkirk''" "''SLK Era''" "''selkirk''" "''slk-era''"]
  have "generate_paddle_id ''Selkirk'' ''SLK Era'' = generate_paddle_id ''selkirk'' ''slk-era''"
    using th a b by blast
  moreover have "generate_paddle_id ''Selkirk'' ''SLK Era'' = assignId_spec ''Selkirk'' ''SLK Era''"
    using th c' by blast
  ultimately show ?thesis using a b d by blast
qed

text \<open>
  The claim C8 as it is written, with every whitespace character replaced by a hyphen,
  fails for a brand that contains a tab: the tab is kept.
\<close>

theorem generate_paddle_id_tab_counterexample:
  "is_space (CHR 0x09)
   \<and> generate_paddle_id [CHR ''a'', CHR 0x09, CHR ''b''] ''c'' = [CHR ''a'', CHR 0x09, CHR ''b'', CHR ''-'', CHR ''c'']
   \<and> assignId_spec [CHR ''a'', CHR 0x09, CHR ''b''] ''c'' = ''a-b-c''
   \<and> generate_paddle_id [CHR ''a'', CHR 0x09, CHR ''b''] ''c'' \<noteq> assignId_spec [CHR ''a'', CHR 0x09, CHR ''b''] ''c''"
  by code_simp

section \<open>Order of the strategies for the core thickness\<close>






section \<open>Weight ranges\<close>

lemma strip_lr: "strip s = rstrip (lstrip s)"
  by (simp add: strip_def lstrip_def rstrip_def)



lemma lstrip_idem: "lstrip (lstrip s) = lstrip s"
  by (simp add: lstrip_def)

lemma rstrip_decomp: "\<exists>r. s = rstrip s @ r \<and> list_all is_space r"
proof -
  have "s = rev (takeWhile is_space (rev s) @ dropWhile is_space (rev s))" by simp
  also have "\<dots> = rev (dropWhile is_space (rev s)) @ rev (takeWhile is_space (rev s))"
    by (rule rev_append)
  finally have "s = rstrip s @ rev (takeWhile is_space (rev s))"
    by (simp only: rstrip_def)
  moreover have "list_all is_space (rev (takeWhile is_space (rev s)))"
    by (auto simp: list_all_iff dest: set_takeWhileD)
  ultimately show ?thesis by blast
qed

lemma lstrip_decomp: "\<exists>l. s = l @ lstrip s \<and> list_all is_space l"
proof -
  have "s = takeWhile is_space s @ lstrip s" by (simp add: lstrip_def)
  moreover have "list_all is_space (takeWhile is_space s)"
    by (auto simp: list_all_iff dest: set_takeWhileD)
  ultimately show ?thesis by blast
qed

lemma lstrip_leading: "list_all is_space l \<Longrightarrow> lstrip (l @ s) = lstrip s"
  by (simp add: lstrip_def list_all_iff)

lemma strip_leading: "list_all is_space l \<Longrightarrow> strip (l @ s) = strip s"
  by (simp add: strip_lr lstrip_leading)

lemma rstrip_trailing:
  assumes "list_all is_space r"
  shows "rstrip (s @ r) = rstrip s"
proof -
  have "dropWhile is_space (rev r @ rev s) = dropWhile is_space (rev s)"
    using assms by (intro dropWhile_append2) (simp add: list_all_iff)
  then show ?thesis by (simp add: rstrip_def)
qed

lemma lstrip_all_space: "list_all is_space s \<Longrightarrow> lstrip s = []"
  by (simp add: lstrip_def list_all_iff)

lemma strip_trailing:
  assumes "list_all is_space r"
  shows "strip (s @ r) = strip s"
proof (cases "lstrip s = []")
  case True
  then have "list_all is_space s" by (simp add: lstrip_def list_all_iff)
  then have "list_all is_space (s @ r)" using assms by simp
  then have "lstrip (s @ r) = []" by (rule lstrip_all_space)
  then show ?thesis using True by (simp add: strip_lr)
next
  case False
  then obtain x where "x \<in> set s" "\<not> is_space x"
    by (auto simp: lstrip_def)
  then have "lstrip (s @ r) = lstrip s @ r"
    unfolding lstrip_def by (rule dropWhile_append1)
  then show ?thesis using assms by (simp add: strip_lr rstrip_trailing)
qed

lemma strip_rstrip: "strip (rstrip s) = strip s"
proof -
  obtain r where "s = rstrip s @ r" "list_all is_space r" using rstrip_decomp by blast
  then show ?thesis using strip_trailing[of r "rstrip s"] by simp
qed

lemma strip_lstrip: "strip (lstrip s) = strip s"
  by (simp add: strip_lr lstrip_idem)

lemma strip_idem: "strip (strip s) = strip s"
proof -
  have "strip (strip s) = strip (rstrip (lstrip s))" by (simp add: strip_lr)
  also have "\<dots> = strip (lstrip s)" by (rule strip_rstrip)
  also have "\<dots> = strip s" by (rule strip_lstrip)
  finally show ?thesis .
qed
















section \<open>The name cleaner applied twice\<close>

lemma strip_decomp: "\<exists>l r. s = l @ strip s @ r"
proof -
  obtain l where l: "s = l @ lstrip s" using lstrip_decomp by blast
  obtain r where r: "lstrip s = rstrip (lstrip s) @ r" using rstrip_decomp by blast
  have "s = l @ strip s @ r" using l r by (simp add: strip_lr)
  then show ?thesis by blast
qed

subsection \<open>The steps add no character but the space\<close>

lemma set_strip_suffix: "set (strip_suffix m suf) \<subseteq> set m"
  using set_strip[of "take (length m - length suf) m"] set_take_subset[of "length m - length suf" m]
  by (auto simp: strip_suffix_def)

lemma set_foldl_strip_suffix: "set (foldl strip_suffix m sufs) \<subseteq> set m"
proof (induction sufs arbitrary: m)
  case Nil
  then show ?case by simp
next
  case (Cons a sufs)
  have "set (foldl strip_suffix (strip_suffix m a) sufs) \<subseteq> set (strip_suffix m a)"
    by (rule Cons.IH)
  then show ?case using set_strip_suffix[of m a] by auto
qed

lemma set_strip_suffixes: "set (strip_suffixes m) \<subseteq> set m"
  by (simp add: strip_suffixes_def set_foldl_strip_suffix)

lemma in_set_tl: "x \<in> set (tl xs) \<Longrightarrow> x \<in> set xs"
  by (cases xs) auto

lemma set_sub_parens: "set (sub_parens ws s) \<subseteq> set ws \<union> set s \<union> {CHR '' ''}"
proof (induction ws s rule: sub_parens.induct)
  case (1 ws)
  show ?case by auto
next
  case (2 ws c cs)
  show ?case
  proof (cases "c = CHR ''('' \<and> CHR '')'' \<in> set cs")
    case True
    let ?r = "dropWhile is_space (tl (dropWhile (\<lambda>x. x \<noteq> CHR '')'') cs))"
    have "set ?r \<subseteq> set cs"
      by (auto dest!: set_dropWhileD in_set_tl)
    moreover have "set (sub_parens [] ?r) \<subseteq> set [] \<union> set ?r \<union> {CHR '' ''}"
      using True by (intro "2.IH"(1)) simp
    ultimately show ?thesis using True by auto
  next
    case False
    show ?thesis
    proof (cases "is_space c")
      case True
      have "set (sub_parens (ws @ [c]) cs) \<subseteq> set (ws @ [c]) \<union> set cs \<union> {CHR '' ''}"
        using False True by (intro "2.IH"(2)) simp_all
      then show ?thesis using False True by auto
    next
      case nsp: False
      have "set (sub_parens [] cs) \<subseteq> set [] \<union> set cs \<union> {CHR '' ''}"
        using False nsp by (intro "2.IH"(3)) simp_all
      then show ?thesis using False nsp by auto
    qed
  qed
qed

lemma set_sub_word: "set (sub_word d p s) \<subseteq> set s"
proof (induction d p s rule: sub_word.induct)
  case (1 d p)
  then show ?case by simp
next
  case (2 d p c cs)
  show ?case
  proof (cases "d \<noteq> [] \<and> word_match d p (c # cs)")
    case True
    have "set (sub_word d (is_word (last (take (length d) (c # cs)))) (drop (length d) (c # cs)))
          \<subseteq> set (drop (length d) (c # cs))"
      using True by (intro "2.IH"(1)) simp
    then show ?thesis using True set_drop_subset[of "length d" "c # cs"] by auto
  next
    case False
    have "set (sub_word d (is_word c) cs) \<subseteq> set cs"
      using False by (intro "2.IH"(2)) simp
    then show ?thesis using False by auto
  qed
qed

lemma set_foldl_sub_word: "set (foldl (\<lambda>m d. sub_word d False m) m ds) \<subseteq> set m"
proof (induction ds arbitrary: m)
  case Nil
  then show ?case by simp
next
  case (Cons a ds)
  have "set (foldl (\<lambda>m d. sub_word d False m) (sub_word a False m) ds) \<subseteq> set (sub_word a False m)"
    by (rule Cons.IH)
  then show ?case using set_sub_word[of a False m] by auto
qed

lemma set_remove_descriptors: "set (remove_descriptors m) \<subseteq> set m"
  by (simp add: remove_descriptors_def set_foldl_sub_word)

lemma set_collapse_ws: "set (collapse_ws s) \<subseteq> set s \<union> {CHR '' ''}"
proof (induction s rule: collapse_ws.induct)
  case 1
  then show ?case by simp
next
  case (2 c cs)
  show ?case
  proof (cases "is_space c")
    case True
    have "set (collapse_ws (dropWhile is_space cs)) \<subseteq> set (dropWhile is_space cs) \<union> {CHR '' ''}"
      using True by (rule "2.IH"(1))
    then show ?thesis using True by (auto dest: set_dropWhileD)
  next
    case False
    have "set (collapse_ws cs) \<subseteq> set cs \<union> {CHR '' ''}"
      using False by (rule "2.IH"(2))
    then show ?thesis using False by auto
  qed
qed


subsection \<open>A cleaned name has no pipe\<close>

lemma clean_no_pipe: "CHR ''|'' \<notin> set (clean_model_name x)"
proof (cases "x = []")
  case True
  then show ?thesis by (simp add: clean_model_name_def)
next
  case False
  let ?m2 = "filter (\<lambda>c. \<not> is_pipe c) (cut_pipe [] x)"
  let ?m3 = "strip_suffixes ?m2"
  let ?m4 = "strip (sub_parens [] ?m3)"
  let ?m5 = "remove_descriptors ?m4"
  have y: "clean_model_name x = strip (collapse_ws ?m5)"
    using False by (simp add: clean_model_name_def Let_def)
  have "CHR ''|'' \<notin> set ?m2" by (simp add: is_pipe_def)
  then have "CHR ''|'' \<notin> set ?m3" using set_strip_suffixes[of ?m2] by blast
  then have "CHR ''|'' \<notin> set (sub_parens [] ?m3)" using set_sub_parens[of "[]" ?m3] by auto
  then have "CHR ''|'' \<notin> set ?m4" using set_strip[of "sub_parens [] ?m3"] by blast
  then have "CHR ''|'' \<notin> set ?m5" using set_remove_descriptors[of ?m4] by blast
  then have "CHR ''|'' \<notin> set (collapse_ws ?m5)" using set_collapse_ws[of ?m5] by auto
  then show ?thesis unfolding y using set_strip[of "collapse_ws ?m5"] by blast
qed

lemma cut_pipe_no_pipe: "CHR ''|'' \<notin> set s \<Longrightarrow> cut_pipe ws s = ws @ s"
  by (induction s arbitrary: ws) auto

lemma filter_no_pipe: "CHR ''|'' \<notin> set s \<Longrightarrow> filter (\<lambda>c. \<not> is_pipe c) s = s"
  by (induction s) (auto simp: is_pipe_def)

subsection \<open>A cleaned name has no pair of parentheses\<close>

lemma no_pair_append: "no_pair (a @ b) \<Longrightarrow> no_pair a \<and> no_pair b"
  by (induction a) auto

lemma no_pair_ws: "CHR ''('' \<notin> set ws \<Longrightarrow> no_pair (ws @ s) = no_pair s"
  by (induction ws) auto

lemma space_not_paren: "is_space c \<Longrightarrow> c \<noteq> CHR ''('' \<and> c \<noteq> CHR '')''"
  by (auto simp: is_space_def)

lemma no_pair_sub_parens:
  "CHR ''('' \<notin> set ws \<Longrightarrow> no_pair (sub_parens ws s)"
proof (induction ws s rule: sub_parens.induct)
  case (1 ws)
  then show ?case using no_pair_ws[of ws "[]"] by simp
next
  case (2 ws c cs)
  show ?case
  proof (cases "c = CHR ''('' \<and> CHR '')'' \<in> set cs")
    case True
    let ?r = "dropWhile is_space (tl (dropWhile (\<lambda>x. x \<noteq> CHR '')'') cs))"
    have eq: "sub_parens ws (c # cs) = CHR '' '' # sub_parens [] ?r"
      using True by simp
    have "no_pair (sub_parens [] ?r)"
      using True by (intro "2.IH"(1)) simp_all
    then show ?thesis unfolding eq by simp
  next
    case False
    show ?thesis
    proof (cases "is_space c")
      case True
      have eq: "sub_parens ws (c # cs) = sub_parens (ws @ [c]) cs"
        using False True by auto
      have "CHR ''('' \<notin> set (ws @ [c])"
        using "2.prems" True space_not_paren by auto
      then have "no_pair (sub_parens (ws @ [c]) cs)"
        using False True by (intro "2.IH"(2)) simp_all
      then show ?thesis unfolding eq .
    next
      case nsp: False
      have eq: "sub_parens ws (c # cs) = ws @ c # sub_parens [] cs"
        using False nsp by auto
      have ih: "no_pair (sub_parens [] cs)"
        using False nsp by (intro "2.IH"(3)) simp_all
      have "c = CHR ''('' \<longrightarrow> CHR '')'' \<notin> set (sub_parens [] cs)"
        using False set_sub_parens[of "[]" cs] by auto
      then have "no_pair (c # sub_parens [] cs)" using ih by simp
      then have "no_pair (ws @ c # sub_parens [] cs)"
        using "2.prems" no_pair_ws by blast
      then show ?thesis unfolding eq .
    qed
  qed
qed

lemma no_pair_strip: "no_pair s \<Longrightarrow> no_pair (strip s)"
proof -
  assume a: "no_pair s"
  obtain l r where "s = l @ strip s @ r" using strip_decomp by blast
  then have "no_pair (l @ strip s @ r)" using a by simp
  then show ?thesis using no_pair_append by blast
qed

lemma no_pair_drop: "no_pair s \<Longrightarrow> no_pair (drop n s)"
  using no_pair_append[of "take n s" "drop n s"] by simp

lemma no_pair_dropWhile: "no_pair s \<Longrightarrow> no_pair (dropWhile P s)"
  using no_pair_append[of "takeWhile P s" "dropWhile P s"] by simp

lemma no_pair_sub_word: "no_pair s \<Longrightarrow> no_pair (sub_word d p s)"
proof (induction d p s rule: sub_word.induct)
  case (1 d p)
  then show ?case by simp
next
  case (2 d p c cs)
  show ?case
  proof (cases "d \<noteq> [] \<and> word_match d p (c # cs)")
    case True
    have eq: "sub_word d p (c # cs) = sub_word d (is_word (last (take (length d) (c # cs))))
                 (drop (length d) (c # cs))"
      using True by simp
    have "no_pair (drop (length d) (c # cs))" using "2.prems" by (rule no_pair_drop)
    then have "no_pair (sub_word d (is_word (last (take (length d) (c # cs))))
                 (drop (length d) (c # cs)))"
      using True by (intro "2.IH"(1)) simp_all
    then show ?thesis unfolding eq .
  next
    case False
    have eq: "sub_word d p (c # cs) = c # sub_word d (is_word c) cs"
      using False by auto
    have "no_pair cs" using "2.prems" by simp
    then have ih: "no_pair (sub_word d (is_word c) cs)"
      using False by (intro "2.IH"(2)) simp_all
    have "c = CHR ''('' \<longrightarrow> CHR '')'' \<notin> set (sub_word d (is_word c) cs)"
      using "2.prems" set_sub_word[of d "is_word c" cs] by auto
    then show ?thesis unfolding eq using ih by simp
  qed
qed

lemma no_pair_foldl_sub_word:
  "no_pair m \<Longrightarrow> no_pair (foldl (\<lambda>m d. sub_word d False m) m ds)"
  by (induction ds arbitrary: m) (auto intro: no_pair_sub_word)

lemma no_pair_collapse_ws: "no_pair s \<Longrightarrow> no_pair (collapse_ws s)"
proof (induction s rule: collapse_ws.induct)
  case 1
  then show ?case by simp
next
  case (2 c cs)
  show ?case
  proof (cases "is_space c")
    case True
    have "no_pair cs" using "2.prems" by simp
    then have "no_pair (dropWhile is_space cs)" by (rule no_pair_dropWhile)
    then have "no_pair (collapse_ws (dropWhile is_space cs))"
      using True by (intro "2.IH"(1))
    then show ?thesis using True by simp
  next
    case False
    have "no_pair cs" using "2.prems" by simp
    then have ih: "no_pair (collapse_ws cs)" using False by (intro "2.IH"(2))
    have "c = CHR ''('' \<longrightarrow> CHR '')'' \<notin> set (collapse_ws cs)"
      using "2.prems" set_collapse_ws[of cs] by auto
    then show ?thesis using False ih by simp
  qed
qed

lemma clean_no_pair: "no_pair (clean_model_name x)"
proof (cases "x = []")
  case True
  then show ?thesis by (simp add: clean_model_name_def)
next
  case False
  let ?m3 = "strip_suffixes (filter (\<lambda>c. \<not> is_pipe c) (cut_pipe [] x))"
  let ?m4 = "strip (sub_parens [] ?m3)"
  let ?m5 = "remove_descriptors ?m4"
  have y: "clean_model_name x = strip (collapse_ws ?m5)"
    using False by (simp add: clean_model_name_def Let_def)
  have "no_pair (sub_parens [] ?m3)" by (rule no_pair_sub_parens) simp
  then have "no_pair ?m4" by (rule no_pair_strip)
  then have "no_pair ?m5" unfolding remove_descriptors_def by (rule no_pair_foldl_sub_word)
  then have "no_pair (collapse_ws ?m5)" by (rule no_pair_collapse_ws)
  then show ?thesis unfolding y by (rule no_pair_strip)
qed

lemma sub_parens_no_pair: "no_pair s \<Longrightarrow> sub_parens ws s = ws @ s"
  by (induction s arbitrary: ws) auto

subsection \<open>A cleaned name has single spaces only\<close>

lemma single_spaced_append: "single_spaced (a @ b) \<Longrightarrow> single_spaced a \<and> single_spaced b"
proof (induction a)
  case Nil
  then show ?case by simp
next
  case (Cons c a)
  then show ?case by (cases a) auto
qed

lemma hd_collapse_ws: "s \<noteq> [] \<Longrightarrow> \<not> is_space (hd s) \<Longrightarrow> \<not> is_space (hd (collapse_ws s))"
  by (cases s) auto

lemma collapse_ws_Nil: "(collapse_ws s = []) = (s = [])"
  by (cases s) auto

lemma single_spaced_collapse_ws: "single_spaced (collapse_ws s)"
proof (induction s rule: collapse_ws.induct)
  case 1
  then show ?case by simp
next
  case (2 c cs)
  show ?case
  proof (cases "is_space c")
    case True
    let ?t = "dropWhile is_space cs"
    have ih: "single_spaced (collapse_ws ?t)" using True by (rule "2.IH"(1))
    have "collapse_ws ?t = [] \<or> \<not> is_space (hd (collapse_ws ?t))"
    proof (cases "?t = []")
      case True
      then show ?thesis by (simp only: collapse_ws.simps) simp
    next
      case False
      then have "\<not> is_space (hd ?t)" by (rule hd_dropWhile)
      then show ?thesis using False hd_collapse_ws by blast
    qed
    then show ?thesis using True ih by simp
  next
    case False
    then show ?thesis using "2.IH"(2) by simp
  qed
qed

lemma collapse_ws_single_spaced: "single_spaced s \<Longrightarrow> collapse_ws s = s"
proof (induction s)
  case Nil
  then show ?case by simp
next
  case (Cons c cs)
  show ?case
  proof (cases "is_space c")
    case True
    then have c: "c = CHR '' ''" and d: "cs = [] \<or> \<not> is_space (hd cs)"
      using Cons.prems by auto
    have "dropWhile is_space cs = cs" using d by (cases cs) auto
    moreover have "collapse_ws cs = cs" using Cons by simp
    ultimately show ?thesis using True c by simp
  next
    case False
    then show ?thesis using Cons by simp
  qed
qed

lemma clean_whitespace:
  "strip (clean_model_name x) = clean_model_name x
   \<and> collapse_ws (clean_model_name x) = clean_model_name x"
proof (cases "x = []")
  case True
  then show ?thesis by (simp add: clean_model_name_def strip_def)
next
  case False
  then obtain m where y: "clean_model_name x = strip (collapse_ws m)"
    by (simp add: clean_model_name_def Let_def)
  obtain l r where "collapse_ws m = l @ strip (collapse_ws m) @ r"
    using strip_decomp by blast
  then have "single_spaced (l @ strip (collapse_ws m) @ r)"
    using single_spaced_collapse_ws[of m] by simp
  then have "single_spaced (strip (collapse_ws m))"
    using single_spaced_append by blast
  then have "collapse_ws (strip (collapse_ws m)) = strip (collapse_ws m)"
    by (rule collapse_ws_single_spaced)
  then show ?thesis unfolding y by (simp add: strip_idem)
qed

subsection \<open>Cleaning a cleaned name\<close>

lemma strip_suffixes_id:
  "\<not> list_ex (endswith y) unwanted_suffixes \<Longrightarrow> strip_suffixes y = y"
  by (simp add: strip_suffixes_def unwanted_suffixes_def strip_suffix_def)

lemma remove_descriptors_id:
  "list_all (\<lambda>d. sub_word d False y = y) common_descriptors \<Longrightarrow> remove_descriptors y = y"
  by (simp add: remove_descriptors_def common_descriptors_def)

text \<open>
  C4: cleaning a cleaned name gives the same name, provided the cleaned name does not
  end with one of the listed suffixes and contains none of the descriptors as a whole
  word (ignoring case).  A cleaned name has no pipe, no opening parenthesis with a
  closing one after it, no whitespace other than single spaces between words; so the
  pipe, parenthesis and whitespace steps leave it as it is, and the two conditions say
  the same of the suffix and descriptor steps.  Without the conditions the cleaner is
  not idempotent (see the counterexample below): each suffix is tried once, in list
  order, and the later steps can uncover a suffix or put a descriptor together.
\<close>

theorem clean_model_name_idempotent_on_settled:
  assumes "\<not> list_ex (endswith (clean_model_name x)) unwanted_suffixes"
    and "list_all (\<lambda>d. sub_word d False (clean_model_name x) = clean_model_name x) common_descriptors"
  shows "clean_model_name (clean_model_name x) = clean_model_name x"
proof -
  let ?y = "clean_model_name x"
  have p: "CHR ''|'' \<notin> set ?y" by (rule clean_no_pipe)
  have 1: "cut_pipe [] ?y = ?y" using p by (simp add: cut_pipe_no_pipe)
  have 2: "filter (\<lambda>c. \<not> is_pipe c) ?y = ?y" using p by (rule filter_no_pipe)
  have 3: "strip_suffixes ?y = ?y" using assms(1) by (rule strip_suffixes_id)
  have 4: "sub_parens [] ?y = ?y" using clean_no_pair[of x] by (simp add: sub_parens_no_pair)
  have 5: "strip ?y = ?y" "collapse_ws ?y = ?y" using clean_whitespace[of x] by simp_all
  have 6: "remove_descriptors ?y = ?y" using assms(2) by (rule remove_descriptors_id)
  have "clean_model_name ?y = (if ?y = [] then ?y else strip (collapse_ws (remove_descriptors
          (strip (sub_parens [] (strip_suffixes (filter (\<lambda>c. \<not> is_pipe c) (cut_pipe [] ?y))))))))"
    by (simp only: clean_model_name_def[of ?y] Let_def)
  also have "\<dots> = ?y" by (simp only: 1 2 3 4 5 6 if_cancel)
  finally show ?thesis .
qed

theorem clean_model_name_idempotent_on_settled_witness:
  "clean_model_name ''Selkirk Paddle | SALE'' = ''Selkirk''
   \<and> \<not> list_ex (endswith ''Selkirk'') unwanted_suffixes
   \<and> list_all (\<lambda>d. sub_word d False ''Selkirk'' = ''Selkirk'') common_descriptors
   \<and> clean_model_name (clean_model_name ''Selkirk Paddle | SALE'')
       = clean_model_name ''Selkirk Paddle | SALE''"
proof -
  have a: "clean_model_name ''Selkirk Paddle | SALE'' = ''Selkirk''" by code_simp
  have b: "\<not> list_ex (endswith ''Selkirk'') unwanted_suffixes" by code_simp
  have c: "list_all (\<lambda>d. sub_word d False ''Selkirk'' = ''Selkirk'') common_descriptors"
    by code_simp
  have "clean_model_name (clean_model_name ''Selkirk Paddle | SALE'')
       = clean_model_name ''Selkirk Paddle | SALE''"
    using clean_model_name_idempotent_on_settled[of "''Selkirk Paddle | SALE''"] a b c
    by simp
  then show ?thesis using a b c by blast
qed

text \<open>
  The claim C4 as it is written fails on a title with a repeated suffix: "Paddle Paddle"
  is cleaned to "Paddle", and "Paddle" is cleaned to the empty string.
\<close>

theorem clean_model_name_not_idempotent:
  "clean_model_name ''Paddle Paddle'' = ''Paddle''
   \<and> clean_model_name (clean_model_name ''Paddle Paddle'') = []
   \<and> clean_model_name (clean_model_name ''Paddle Paddle'') \<noteq> clean_model_name ''Paddle Paddle''"
  by code_simp

end
